theory Spec2Isabelle
  imports Complex_Main
begin

section \<open>Numbers\<close>

text \<open>
  The viewer computes with JavaScript numbers. The embedding reads them as real numbers:
  it describes the runs in which every intermediate result is a finite number and
  abstracts from rounding. The two places where a JavaScript result would not be a finite
  number are written out where they occur: a division by a zero friction (a hypothesis of
  the theorems about \<open>move\<close>) and arithmetic on a field that is still \<open>undefined\<close>
  (an \<open>option\<close> in the model).

  The \<open>%\<close> operator is the truncating remainder: the quotient is rounded towards zero,
  so the result carries the sign of the dividend.
\<close>

definition js_trunc :: "real \<Rightarrow> int" where
  "js_trunc x = (if x < 0 then \<lceil>x\<rceil> else \<lfloor>x\<rfloor>)"

definition js_rem :: "real \<Rightarrow> real \<Rightarrow> real" where
  "js_rem x y = x - y * of_int (js_trunc (x / y))"

text \<open>JavaScript truthiness of a value that is \<open>undefined\<close>, \<open>false\<close> or a string.\<close>

definition truthy :: "string option \<Rightarrow> bool" where
  "truthy v = (case v of None \<Rightarrow> False | Some s \<Rightarrow> s \<noteq> [])"

section \<open>PositionControls\<close>

text \<open>
  One controller per controllable target. \<open>controlActive\<close> is \<open>undefined\<close> after
  construction, \<open>false\<close> after \<open>end\<close> (both \<open>None\<close> here) and the control identifier
  while a session runs. \<open>startX\<close> and \<open>startY\<close> are the two fields the scene's
  \<open>movestart\<close> listeners attach to the controller; they are \<open>undefined\<close> before the
  first accepted start. The DOM element is a handle.
\<close>

type_synonym dom = nat

record position_controls =
  element :: dom
  friction :: real
  invert :: int
  isCamera :: bool
  isPanorama :: bool
  alpha :: real
  beta :: real
  startPosition :: "(real \<times> real) option"
  prevPosition :: "(real \<times> real) option"
  keyStillDown :: "nat option"
  controlActive :: "string option"
  startX :: "real option"
  startY :: "real option"

definition PositionControls ::
  "dom \<Rightarrow> real option \<Rightarrow> bool \<Rightarrow> bool option \<Rightarrow> bool option \<Rightarrow> position_controls" where
  "PositionControls el fric shouldInvert isCam isPano =
     \<lparr> element = el,
       friction = (case fric of None \<Rightarrow> 800 | Some f \<Rightarrow> f),
       invert = (if shouldInvert then 1 else - 1),
       isCamera = (case isCam of None \<Rightarrow> False | Some b \<Rightarrow> b),
       isPanorama = (case isPano of None \<Rightarrow> False | Some b \<Rightarrow> b),
       alpha = 0,
       beta = 0,
       startPosition = None,
       prevPosition = None,
       keyStillDown = None,
       controlActive = None,
       startX = None,
       startY = None \<rparr>"

text \<open>
  The \<open>movestart\<close> event carries the element, the camera flag and, when an original
  event was passed, its target. Triggering it runs the registered listeners, which hold
  a reference to the controller: a listener is a function from the event and the
  controller to the \<open>defaultPrevented\<close> flag it leaves and the controller as it leaves it.
\<close>

record movestart_event =
  ms_element :: dom
  ms_isCamera :: bool
  ms_target :: "dom option"

type_synonym movestart_listener =
  "movestart_event \<Rightarrow> position_controls \<Rightarrow> bool \<times> position_controls"

definition start ::
  "real \<Rightarrow> real \<Rightarrow> string \<Rightarrow> dom option \<Rightarrow> movestart_listener \<Rightarrow> position_controls
     \<Rightarrow> bool \<times> position_controls" where
  "start x y control event listeners s =
     (if truthy (controlActive s) then (False, s)
      else
        let eventData = \<lparr> ms_element = element s, ms_isCamera = isCamera s, ms_target = event \<rparr>;
            (defaultPrevented, s1) = listeners eventData s
        in if defaultPrevented then (False, s1)
           else (True, s1\<lparr> startPosition := Some (x, y), alpha := 0, beta := 0,
                           controlActive := Some control \<rparr>))"

text \<open>\<open>end\<close> clears the session marker and triggers \<open>movestop\<close>.\<close>

definition end_controls :: "position_controls \<Rightarrow> position_controls" where
  "end_controls s = s\<lparr> controlActive := None \<rparr>"

record move_event =
  alphaDelta :: real
  betaDelta :: real
  event_alpha :: real
  event_beta :: real

definition move ::
  "real \<Rightarrow> real \<Rightarrow> real \<Rightarrow> position_controls \<Rightarrow> position_controls \<times> move_event" where
  "move deltaX deltaY fric s =
     (let deltaY' = (if isPanorama s then 0 else deltaY);
          aDelta = deltaX / fric;
          bDelta = deltaY' / fric;
          a = js_rem (alpha s + aDelta) (pi * 2);
          b = js_rem (beta s + bDelta) (pi * 2);
          ninety = pi / 2;
          b' = (if b > ninety then ninety else if b < - ninety then - ninety else b)
      in (s\<lparr> alpha := a, beta := b' \<rparr>,
          \<lparr> alphaDelta = aDelta, betaDelta = bDelta, event_alpha = a, event_beta = b' \<rparr>))"

definition getAlpha :: "position_controls \<Rightarrow> real" where
  "getAlpha s = alpha s"

definition getBeta :: "position_controls \<Rightarrow> real" where
  "getBeta s = beta s"

definition isMoving :: "string option \<Rightarrow> position_controls \<Rightarrow> bool" where
  "isMoving control s =
     (if truthy control then controlActive s = control else truthy (controlActive s))"

definition setPanorama :: "bool \<Rightarrow> position_controls \<Rightarrow> position_controls" where
  "setPanorama state s = s\<lparr> isPanorama := state \<rparr>"

text \<open>The clamp of the specification's angular state model, \<open>clamp(p, -\<pi>/2, \<pi>/2)\<close>.\<close>

definition clampPitch :: "real \<Rightarrow> real" where
  "clampPitch p = max (- (pi / 2)) (min (pi / 2) p)"

text \<open>A listener that neither vetoes nor touches the controller.\<close>

definition no_listener :: movestart_listener where
  "no_listener ev s = (False, s)"

text \<open>A freshly constructed element controller with an accepted pointer session.\<close>

definition fresh_session :: position_controls where
  "fresh_session = snd (start 100 100 ''mouse'' None no_listener
      (PositionControls 0 None False None None))"

text \<open>
  The calls a controller receives over its life, from its input adapters or directly:
  \<open>start\<close> (with the verdict of the host's \<open>movestart\<close> listeners, which leave the
  controller alone), \<open>move\<close>, \<open>end\<close> and \<open>setPanorama\<close>. A call is well formed when
  its friction is not zero.
\<close>

datatype call =
  CallStart real real string bool
| CallMove real real real
| CallEnd
| CallSetPanorama bool

fun exec :: "call \<Rightarrow> position_controls \<Rightarrow> position_controls" where
  "exec (CallStart x y control veto) s = snd (start x y control None (\<lambda>ev c. (veto, c)) s)"
| "exec (CallMove deltaX deltaY fric) s = fst (move deltaX deltaY fric s)"
| "exec CallEnd s = end_controls s"
| "exec (CallSetPanorama state) s = setPanorama state s"

fun well_formed :: "call \<Rightarrow> bool" where
  "well_formed (CallMove deltaX deltaY fric) = (fric \<noteq> 0)"
| "well_formed c = True"

definition run :: "call list \<Rightarrow> position_controls \<Rightarrow> position_controls" where
  "run cs s = fold exec cs s"

text \<open>The camera's controller in a panorama scene, after an accepted start and a drag.\<close>

definition panorama_session :: position_controls where
  "panorama_session =
     run [CallStart 0 0 ''mouse'' False, CallMove 10 25 400]
       (PositionControls 0 (Some 400) True (Some True) (Some True))"

section \<open>Constants\<close>

definition MAX_PITCH :: real where
  "MAX_PITCH = pi / 2"

definition FOV_PANORAMA :: real where
  "FOV_PANORAMA = 53"

definition FOV_SPHERE :: real where
  "FOV_SPHERE = 75"

definition DEFAULT_FRICTION :: real where
  "DEFAULT_FRICTION = 400"

definition DEFAULT_ROTATION_ORDER :: string where
  "DEFAULT_ROTATION_ORDER = ''YXZ''"

definition ZOOM_MIN :: real where
  "ZOOM_MIN = 1"

definition ZOOM_MAX :: real where
  "ZOOM_MAX = 100"

section \<open>ZoomControls\<close>

text \<open>
  The camera object as the controllers see it: the two type flags of the rendering
  library, the field of view (degrees) of a perspective camera, the zoom factor of an
  orthographic one, and the Euler rotation. Recomputing the projection matrix belongs to
  the renderer and is not modelled.
\<close>

record camera =
  isPerspectiveCamera :: bool
  isOrthographicCamera :: bool
  fov :: real
  zoom :: real
  aspect :: real
  cam_rotation_order :: string
  cam_rotation_x :: real
  cam_rotation_y :: real

record zoom_controls =
  object :: camera
  enabled :: bool
  minFov :: real
  maxFov :: real
  minZoom :: real
  maxZoom :: real
  enableZoom :: bool
  zoomSpeed :: real
  dollyStart :: "real \<times> real"
  dollyEnd :: "real \<times> real"
  dollyDelta :: "real \<times> real"

definition ZoomControls :: "camera \<Rightarrow> bool \<Rightarrow> zoom_controls" where
  "ZoomControls obj isPano =
     \<lparr> object = obj,
       enabled = True,
       minFov = 20,
       maxFov = (if isPano then FOV_PANORAMA else FOV_SPHERE),
       minZoom = ZOOM_MIN,
       maxZoom = ZOOM_MAX,
       enableZoom = True,
       zoomSpeed = 1,
       dollyStart = (0, 0),
       dollyEnd = (0, 0),
       dollyDelta = (0, 0) \<rparr>"

definition getZoomScale :: "zoom_controls \<Rightarrow> real" where
  "getZoomScale zc = (95 / 100) powr zoomSpeed zc"

definition isDollyInDisabled :: "zoom_controls \<Rightarrow> bool" where
  "isDollyInDisabled zc = (isPerspectiveCamera (object zc) \<and> fov (object zc) \<le> minFov zc)"

definition isDollyOutDisabled :: "zoom_controls \<Rightarrow> bool" where
  "isDollyOutDisabled zc = (isPerspectiveCamera (object zc) \<and> fov (object zc) \<ge> maxFov zc)"

definition dollyIn :: "real option \<Rightarrow> zoom_controls \<Rightarrow> zoom_controls" where
  "dollyIn dollyScale zc =
     (let scale = (case dollyScale of None \<Rightarrow> getZoomScale zc | Some d \<Rightarrow> d);
          cam = object zc
      in if isPerspectiveCamera cam then
           zc\<lparr> object := cam\<lparr> fov := max (minFov zc) (min (maxFov zc) (fov cam * scale)) \<rparr> \<rparr>
         else if isOrthographicCamera cam then
           zc\<lparr> object := cam\<lparr> zoom := max (minZoom zc) (min (maxZoom zc) (zoom cam * scale)) \<rparr> \<rparr>
         else zc)"

definition dollyOut :: "real option \<Rightarrow> zoom_controls \<Rightarrow> zoom_controls" where
  "dollyOut dollyScale zc =
     (let scale = (case dollyScale of None \<Rightarrow> getZoomScale zc | Some d \<Rightarrow> d);
          cam = object zc
      in if isPerspectiveCamera cam then
           zc\<lparr> object := cam\<lparr> fov := max (minFov zc) (min (maxFov zc) (fov cam / scale)) \<rparr> \<rparr>
         else if isOrthographicCamera cam then
           zc\<lparr> object := cam\<lparr> zoom := max (minZoom zc) (min (maxZoom zc) (zoom cam / scale)) \<rparr> \<rparr>
         else zc)"

text \<open>The field of view after \<open>n\<close> calls without a scale argument.\<close>

definition fov_after_dollyIn :: "nat \<Rightarrow> zoom_controls \<Rightarrow> real" where
  "fov_after_dollyIn n zc = fov (object ((dollyIn None ^^ n) zc))"

definition fov_after_dollyOut :: "nat \<Rightarrow> zoom_controls \<Rightarrow> real" where
  "fov_after_dollyOut n zc = fov (object ((dollyOut None ^^ n) zc))"

text \<open>A perspective camera as the scene builds it, with a given field of view.\<close>

definition PerspectiveCamera :: "real \<Rightarrow> real \<Rightarrow> camera" where
  "PerspectiveCamera fieldOfView ratio =
     \<lparr> isPerspectiveCamera = True,
       isOrthographicCamera = False,
       fov = fieldOfView,
       zoom = 1,
       aspect = ratio,
       cam_rotation_order = ''XYZ'',
       cam_rotation_x = 0,
       cam_rotation_y = 0 \<rparr>"

text \<open>What a perspective controller with zoom speed 1 keeps, and what it changes.\<close>

definition perspective_default :: "real \<Rightarrow> real \<Rightarrow> zoom_controls \<Rightarrow> bool" where
  "perspective_default lo hi zc \<longleftrightarrow>
     isPerspectiveCamera (object zc) \<and> zoomSpeed zc = 1 \<and> minFov zc = lo \<and> maxFov zc = hi"

text \<open>Zoom controllers on a camera at the widest field of view of each mode.\<close>

definition sphere_zoom :: zoom_controls where
  "sphere_zoom = ZoomControls (PerspectiveCamera 75 (16 / 9)) False"

definition panorama_zoom :: zoom_controls where
  "panorama_zoom = ZoomControls (PerspectiveCamera 53 (16 / 9)) True"

section \<open>NDLAThreeSixty\<close>

text \<open>
  Placed elements are objects of the rendering library; the scene keeps references to
  them in \<open>threeElements\<close>, compared by identity, so the collection is a list of handles.
  \<open>indexOf\<close> and \<open>splice\<close> are the array methods of the language, \<open>splice\<close> with the
  relative start index and the clamped delete count of its definition.
\<close>

type_synonym handle = nat

fun indexOf_from :: "'a list \<Rightarrow> 'a \<Rightarrow> int \<Rightarrow> int" where
  "indexOf_from [] h i = - 1"
| "indexOf_from (e # es) h i = (if e = h then i else indexOf_from es h (i + 1))"

definition indexOf :: "'a list \<Rightarrow> 'a \<Rightarrow> int" where
  "indexOf es h = indexOf_from es h 0"

definition splice :: "'a list \<Rightarrow> int \<Rightarrow> int \<Rightarrow> 'a list" where
  "splice es startIndex deleteCount =
     (let len = int (length es);
          actualStart = (if startIndex < 0 then max (len + startIndex) 0 else min startIndex len);
          actualDeleteCount = min (max deleteCount 0) (len - actualStart)
      in take (nat actualStart) es @ drop (nat (actualStart + actualDeleteCount)) es)"

record three_element =
  position_x :: real
  position_y :: real
  position_z :: real
  rotation_order :: string
  rotation_x :: real
  rotation_y :: real
  is3d :: bool

text \<open>Events the scene triggers for its host.\<close>

datatype scene_event =
  Movestart movestart_event
| Movestop real real
| Firstrender

record three_sixty =
  camera :: camera
  fieldOfView :: real
  ratio :: real
  scene_isPanorama :: bool
  threeElements :: "handle list"
  cssScene :: "handle list"
  preventCameraMovement :: bool
  preventDeviceOrientation :: bool
  cameraControls :: position_controls

definition toRad :: "real \<Rightarrow> real" where
  "toRad v = v * (pi / 180)"

text \<open>
  \<open>setCameraPosition\<close> returns the scene and the events it triggered; \<open>Movestop\<close>
  carries pitch and yaw as passed.
\<close>

definition setCameraPosition :: "real \<Rightarrow> real \<Rightarrow> three_sixty \<Rightarrow> three_sixty \<times> scene_event list" where
  "setCameraPosition yaw pitch s =
     (if preventDeviceOrientation s then (s, [])
      else
        (s\<lparr> camera := (camera s)\<lparr> cam_rotation_y := - yaw,
                                   cam_rotation_x := (if scene_isPanorama s then 0 else pitch) \<rparr> \<rparr>,
         [Movestop pitch yaw]))"


definition setPreventCameraMovement :: "bool \<Rightarrow> three_sixty \<Rightarrow> three_sixty" where
  "setPreventCameraMovement b s = s\<lparr> preventCameraMovement := b \<rparr>"

text \<open>
  The constructor: options are the display ratio, the camera start position (yaw and
  pitch, each optional) and the panorama flag. It does not set the scene's own panorama
  field, which stays \<open>undefined\<close> (falsy) until \<open>setSourceElement\<close> runs; the suspension
  flag is \<open>undefined\<close> as well.
\<close>

definition NDLAThreeSixty ::
  "real option \<Rightarrow> (real option \<times> real option) option \<Rightarrow> bool option \<Rightarrow> three_sixty" where
  "NDLAThreeSixty opt_ratio opt_cameraStartPosition opt_isPanorama =
     (let fieldOfView0 = (if opt_isPanorama = Some True then 53 else 75);
          ratio0 = (case opt_ratio of None \<Rightarrow> 16 / 9 | Some r \<Rightarrow> if r = 0 then 16 / 9 else r);
          cam = (PerspectiveCamera fieldOfView0 ratio0)\<lparr> cam_rotation_order := ''YXZ'' \<rparr>;
          camPos = (case opt_cameraStartPosition of None \<Rightarrow> (None, None) | Some c \<Rightarrow> c);
          s0 = \<lparr> camera = cam,
                 fieldOfView = fieldOfView0,
                 ratio = ratio0,
                 scene_isPanorama = False,
                 threeElements = [],
                 cssScene = [],
                 preventCameraMovement = False,
                 preventDeviceOrientation = False,
                 cameraControls = PositionControls 0 (Some 400) True (Some True) opt_isPanorama \<rparr>
      in fst (setCameraPosition
                (case fst camPos of None \<Rightarrow> - (pi * (2 / 3)) | Some y \<Rightarrow> y)
                (case snd camPos of None \<Rightarrow> 0 | Some p \<Rightarrow> p) s0))"

text \<open>
  The scene's listeners on its camera controller. The \<open>movestart\<close> listener records
  the camera's rotation on the controller, sets the suspension flag and relays the event;
  a host listener may veto the relayed event (\<open>host_veto\<close>). \<open>camera_start\<close> is
  \<open>start\<close> on the camera controller with this listener registered.
\<close>

definition camera_start ::
  "real \<Rightarrow> real \<Rightarrow> string \<Rightarrow> dom option \<Rightarrow> bool \<Rightarrow> three_sixty \<Rightarrow> bool \<times> three_sixty" where
  "camera_start x y control event host_veto s =
     (let listener = (\<lambda>ev c. (host_veto,
            c\<lparr> startY := Some (cam_rotation_y (camera s)),
               startX := Some (cam_rotation_x (camera s)) \<rparr>));
          triggered = (\<not> truthy (controlActive (cameraControls s)));
          (accepted, cc) = start x y control event listener (cameraControls s)
      in (accepted,
          s\<lparr> cameraControls := cc,
             preventDeviceOrientation := (if triggered then True else preventDeviceOrientation s) \<rparr>))"

text \<open>
  The \<open>move\<close> listener rotates the camera. Before the first accepted start the two
  start fields are \<open>undefined\<close> and the sums are not numbers: the result is \<open>None\<close>.
\<close>

definition camera_move_listener :: "move_event \<Rightarrow> three_sixty \<Rightarrow> three_sixty option" where
  "camera_move_listener ev s =
     (case (startY (cameraControls s), startX (cameraControls s)) of
        (Some sY, Some sX) \<Rightarrow>
          let yaw = sY + event_alpha ev;
              pitch = sX + event_beta ev;
              radsFromCameraCenter = toRad (fieldOfView s) / 2;
              pitch' = (if pitch + radsFromCameraCenter > MAX_PITCH
                          then MAX_PITCH - radsFromCameraCenter
                        else if pitch - radsFromCameraCenter < - MAX_PITCH
                          then - MAX_PITCH + radsFromCameraCenter
                        else pitch);
              yaw1 = js_rem yaw (pi * 2);
              yaw2 = (if yaw1 < 0 then yaw1 + pi * 2 else yaw1)
          in Some (s\<lparr> camera := (camera s)\<lparr> cam_rotation_y := yaw2, cam_rotation_x := pitch' \<rparr> \<rparr>)
      | _ \<Rightarrow> None)"

definition camera_move :: "real \<Rightarrow> real \<Rightarrow> real \<Rightarrow> three_sixty \<Rightarrow> three_sixty option" where
  "camera_move deltaX deltaY fric s =
     (let (cc, ev) = move deltaX deltaY fric (cameraControls s)
      in camera_move_listener ev (s\<lparr> cameraControls := cc \<rparr>))"

definition camera_end :: "three_sixty \<Rightarrow> three_sixty \<times> scene_event list" where
  "camera_end s =
     (s\<lparr> cameraControls := end_controls (cameraControls s), preventDeviceOrientation := False \<rparr>,
      [Movestop (cam_rotation_x (camera s)) (- cam_rotation_y (camera s))])"

text \<open>
  \<open>remove\<close> deletes from the collection at the index \<open>indexOf\<close> returns and asks the
  rendering library's scene to drop the object, which does so only when it holds it.
\<close>

definition remove :: "handle \<Rightarrow> three_sixty \<Rightarrow> three_sixty" where
  "remove threeElement s =
     s\<lparr> threeElements := splice (threeElements s) (indexOf (threeElements s) threeElement) 1,
        cssScene := (let i = indexOf (cssScene s) threeElement
                     in if i \<noteq> - 1 then splice (cssScene s) i 1 else cssScene s) \<rparr>"

definition setElementPosition :: "three_element \<Rightarrow> real \<times> real \<Rightarrow> three_element" where
  "setElementPosition threeElement position =
     (let radius = 800; yaw = fst position; pitch = snd position
      in threeElement\<lparr>
           position_x := radius * sin yaw * cos pitch,
           position_y := radius * sin pitch,
           position_z := - radius * cos yaw * cos pitch,
           rotation_order := ''YXZ'',
           rotation_y := - yaw,
           rotation_x := pitch \<rparr>)"

definition setSourceElement :: "bool \<Rightarrow> three_sixty \<Rightarrow> three_sixty" where
  "setSourceElement isPano s =
     s\<lparr> scene_isPanorama := isPano,
        camera := (camera s)\<lparr> fov := (if isPano then 53 else 75) \<rparr>,
        cameraControls := setPanorama isPano (cameraControls s) \<rparr>"

text \<open>
  \<open>add\<close> wraps the element in a new object of the rendering library, here the handle
  \<open>threeElement\<close>, appends it to the collection and to the scene and places it. Only the
  two collections are modelled.
\<close>

definition add :: "handle \<Rightarrow> three_sixty \<Rightarrow> three_sixty" where
  "add threeElement s =
     s\<lparr> threeElements := threeElements s @ [threeElement],
        cssScene := cssScene s @ [threeElement] \<rparr>"

text \<open>Scenes for the concrete runs: a sphere scene, one with three placed elements, one
  switched to panorama mode, and the sphere scene during a camera drag.\<close>

definition sphere_scene :: three_sixty where
  "sphere_scene = NDLAThreeSixty None None None"

definition three_placed :: three_sixty where
  "three_placed = add 3 (add 2 (add 1 sphere_scene))"


definition dragging_scene :: three_sixty where
  "dragging_scene = snd (camera_start 100 100 ''mouse'' None False
      (NDLAThreeSixty None (Some (Some 0, Some 0)) None))"

text \<open>
  A scene constructed for a panorama and then given a sphere source, during a camera
  drag that started at pitch 0.
\<close>

definition switched_scene :: three_sixty where
  "switched_scene = snd (camera_start 100 100 ''mouse'' None False
      (setSourceElement False (NDLAThreeSixty None (Some (Some 0, Some 0)) (Some True))))"

text \<open>The specification's clamp of a value into an interval.\<close>

definition clamp :: "real \<Rightarrow> real \<Rightarrow> real \<Rightarrow> real" where
  "clamp v lo hi = max lo (min hi v)"

section \<open>Facts about the remainder\<close>

lemma js_rem_small:
  assumes "\<bar>x\<bar> < y"
  shows "js_rem x y = x"
proof -
  have y: "0 < y" using assms by linarith
  have lo: "- 1 < x / y" using assms y by (simp add: pos_less_divide_eq)
  have hi: "x / y < 1" using assms y by (simp add: pos_divide_less_eq)
  have "js_trunc (x / y) = 0"
  proof (cases "x / y < 0")
    case True
    then have "\<lceil>x / y\<rceil> = 0" using lo by (intro ceiling_unique) simp_all
    with True show ?thesis by (simp add: js_trunc_def)
  next
    case False
    then have "\<lfloor>x / y\<rfloor> = 0" using hi by (intro floor_unique) simp_all
    with False show ?thesis by (simp add: js_trunc_def)
  qed
  then show ?thesis by (simp add: js_rem_def)
qed

lemma js_rem_nonneg:
  assumes "0 < y" "0 \<le> x"
  shows "0 \<le> js_rem x y" "js_rem x y < y"
proof -
  have q: "\<not> x / y < 0" using assms by (simp add: not_less)
  have t: "js_trunc (x / y) = \<lfloor>x / y\<rfloor>" using q by (simp add: js_trunc_def)
  have "y * of_int \<lfloor>x / y\<rfloor> \<le> x"
    using pos_le_divide_eq [OF assms(1), of "of_int \<lfloor>x / y\<rfloor>" x] of_int_floor_le [of "x / y"]
    by (simp add: mult.commute)
  then show "0 \<le> js_rem x y" by (simp add: js_rem_def t)
  have "x / y < of_int \<lfloor>x / y\<rfloor> + 1" by linarith
  then have "x < (of_int \<lfloor>x / y\<rfloor> + 1) * y"
    using pos_divide_less_eq [OF assms(1), of x "of_int \<lfloor>x / y\<rfloor> + 1"] by simp
  then show "js_rem x y < y" by (simp add: js_rem_def t algebra_simps)
qed

lemma js_rem_neg:
  assumes "0 < y" "x < 0"
  shows "- y < js_rem x y" "js_rem x y \<le> 0"
proof -
  have q: "x / y < 0" using assms by (simp add: divide_neg_pos)
  have t: "js_trunc (x / y) = \<lceil>x / y\<rceil>" using q by (simp add: js_trunc_def)
  have "x \<le> of_int \<lceil>x / y\<rceil> * y"
    using pos_divide_le_eq [OF assms(1), of x "of_int \<lceil>x / y\<rceil>"] le_of_int_ceiling [of "x / y"]
    by simp
  then show "js_rem x y \<le> 0" by (simp add: js_rem_def t algebra_simps)
  have "of_int \<lceil>x / y\<rceil> - 1 < x / y" by linarith
  then have "(of_int \<lceil>x / y\<rceil> - 1) * y < x"
    using pos_less_divide_eq [OF assms(1), of "of_int \<lceil>x / y\<rceil> - 1" x] by simp
  then show "- y < js_rem x y" by (simp add: js_rem_def t algebra_simps)
qed

lemma js_rem_abs_less:
  assumes "0 < y"
  shows "\<bar>js_rem x y\<bar> < y"
proof (cases "x < 0")
  case True
  from js_rem_neg [OF assms True] show ?thesis by linarith
next
  case False
  then have "0 \<le> x" by simp
  from js_rem_nonneg [OF assms this] show ?thesis by linarith
qed

section \<open>Bounds on \<open>\<pi>\<close>\<close>

text \<open>
  The concrete runs below need to know between which multiples of \<open>\<pi>\<close> a number lies.
  The bounds come from \<open>sin (\<pi>/6) = 1/2\<close> and the cubic Taylor polynomial of the sine.
\<close>

lemma sin_cubic_bound:
  fixes x :: real
  assumes "0 \<le> x"
  shows "\<bar>sin x - (x - x ^ 3 / 6)\<bar> \<le> x ^ 5 / 120"
proof -
  have c: "sin_coeff 0 = 0" "sin_coeff (Suc 0) = 1" "sin_coeff 2 = 0" "sin_coeff 3 = - 1 / 6"
      "sin_coeff 4 = 0"
    by (simp_all add: sin_coeff_def fact_numeral)
  have "(\<Sum>m<5. sin_coeff m * x ^ m) =
      sin_coeff 0 * x ^ 0 + sin_coeff 1 * x ^ 1 + sin_coeff 2 * x ^ 2 + sin_coeff 3 * x ^ 3
        + sin_coeff 4 * x ^ 4"
    by (simp add: numeral_eq_Suc lessThan_Suc)
  then have s: "(\<Sum>m<5. sin_coeff m * x ^ m) = x - x ^ 3 / 6"
    by (simp add: c)
  have "\<bar>sin x - (\<Sum>m<5. sin_coeff m * x ^ m)\<bar> \<le> inverse (fact 5) * \<bar>x\<bar> ^ 5"
    by (rule Maclaurin_sin_bound)
  then show ?thesis using assms unfolding s by (simp add: fact_numeral)
qed

lemma pi_sixth_step:
  fixes lo hi :: real
  assumes "0 \<le> lo" "lo \<le> pi / 6" "pi / 6 \<le> hi"
  shows "1 / 2 + lo ^ 3 / 6 - hi ^ 5 / 120 \<le> pi / 6"
    and "pi / 6 \<le> 1 / 2 + hi ^ 3 / 6 + hi ^ 5 / 120"
proof -
  let ?u = "pi / 6"
  have u0: "0 \<le> ?u" by simp
  have b: "\<bar>1 / 2 - (?u - ?u ^ 3 / 6)\<bar> \<le> ?u ^ 5 / 120"
    using sin_cubic_bound [OF u0] by (simp add: sin_30)
  have l3: "lo ^ 3 \<le> ?u ^ 3" using assms by (intro power_mono) simp_all
  have h3: "?u ^ 3 \<le> hi ^ 3" using assms by (intro power_mono) simp_all
  have h5: "?u ^ 5 \<le> hi ^ 5" using assms by (intro power_mono) simp_all
  show "1 / 2 + lo ^ 3 / 6 - hi ^ 5 / 120 \<le> ?u" using b l3 h5 by linarith
  show "?u \<le> 1 / 2 + hi ^ 3 / 6 + hi ^ 5 / 120" using b h3 h5 by linarith
qed

lemma pi_bounds: "3127 / 1000 < pi" "pi < 315 / 100"
proof -
  have l0: "(1 / 3 :: real) \<le> pi / 6" using pi_ge_two by simp
  have h0: "pi / 6 \<le> 2 / 3" using pi_less_4 by simp
  have h1: "pi / 6 \<le> 5505 / 10000"
    using pi_sixth_step(2) [OF _ l0 h0] by (simp add: power_divide)
  have h2: "pi / 6 \<le> 5283 / 10000"
    using pi_sixth_step(2) [OF _ l0 h1] by (simp add: power_divide)
  have h3: "pi / 6 \<le> 52492 / 100000"
    using pi_sixth_step(2) [OF _ l0 h2] by (simp add: power_divide)
  have l1: "5058 / 10000 \<le> pi / 6"
    using pi_sixth_step(1) [OF _ l0 h3] by (simp add: power_divide)
  have l2: "5212 / 10000 \<le> pi / 6"
    using pi_sixth_step(1) [OF _ l1 h3] by (simp add: power_divide)
  show "3127 / 1000 < pi" using l2 by simp
  show "pi < 315 / 100" using h3 by simp
qed

section \<open>The orientation controller\<close>

lemma move_alpha: "alpha (fst (move dx dy fric s)) = js_rem (alpha s + dx / fric) (pi * 2)"
  by (simp add: move_def Let_def)

lemma fresh_session_fields:
  "alpha fresh_session = 0" "beta fresh_session = 0" "isPanorama fresh_session = False"
  "controlActive fresh_session = Some ''mouse''"
  by (simp_all add: fresh_session_def start_def PositionControls_def no_listener_def truthy_def
      Let_def)

text \<open>
  Whatever the arguments, the yaw accumulator stays strictly between \<open>-2\<pi>\<close> and
  \<open>2\<pi>\<close> after a move.
\<close>

lemma move_alpha_bounds:
  "- (2 * pi) < alpha (fst (move dx dy fric s))" "alpha (fst (move dx dy fric s)) < 2 * pi"
  using js_rem_abs_less [of "pi * 2" "alpha s + dx / fric"] by (simp_all add: move_alpha)

text \<open>
  Claim C1 (the yaw accumulator lies in \<open>[0, 2\<pi>)\<close> after every move). The controller
  documents the field as running from 0 to \<open>2\<pi>\<close>, but \<open>move\<close> only takes the truncating
  remainder and does not remap a negative result: in a fresh session, dragging one pixel
  to the left with friction 400 leaves the accumulator at \<open>-1/400\<close>, which is negative.
\<close>

theorem move_alpha_negative:
  "alpha (fst (move (- 1) 0 400 fresh_session)) = - 1 / 400 \<and>
   \<not> 0 \<le> alpha (fst (move (- 1) 0 400 fresh_session))"
proof -
  have "\<bar>- 1 / 400 :: real\<bar> < pi * 2" using pi_ge_two by simp
  then have "js_rem (- 1 / 400) (pi * 2) = - 1 / 400" by (rule js_rem_small)
  then show ?thesis by (simp add: move_alpha fresh_session_fields)
qed

text \<open>
  Claim C4 (session arbitration). When a session is active on the controller, \<open>start\<close>
  returns \<open>false\<close> and the controller is exactly as it was: no listener runs, and the
  session marker, the origin point and both accumulators keep their values.
\<close>

theorem start_rejected_while_active:
  assumes "truthy (controlActive s)"
  shows "start x y control event listeners s = (False, s)"
  using assms by (simp add: start_def)

text \<open>
  The witness: after an accepted pointer start and a move of 50 pixels, a touch start is
  rejected and the accumulated yaw is still \<open>50/400\<close>.
\<close>

theorem start_rejected_while_active_witness:
  "truthy (controlActive (fst (move 50 0 400 fresh_session))) \<and>
   start 5 5 ''touch'' None no_listener (fst (move 50 0 400 fresh_session))
     = (False, fst (move 50 0 400 fresh_session)) \<and>
   alpha (snd (start 5 5 ''touch'' None no_listener (fst (move 50 0 400 fresh_session)))) = 1 / 8"
proof -
  let ?s = "fst (move 50 0 400 fresh_session)"
  have a: "truthy (controlActive ?s)"
    by (simp add: move_def Let_def fresh_session_fields truthy_def)
  have "\<bar>1 / 8 :: real\<bar> < pi * 2" using pi_ge_two by simp
  then have "js_rem (1 / 8) (pi * 2) = 1 / 8" by (rule js_rem_small)
  then have b: "alpha ?s = 1 / 8" by (simp add: move_alpha fresh_session_fields)
  show ?thesis using a b start_rejected_while_active [OF a, of 5 5 "''touch''" None no_listener]
    by simp
qed

lemma js_rem_once:
  assumes "0 < y" "y \<le> x" "x < 2 * y"
  shows "js_rem x y = x - y"
proof -
  have q: "1 \<le> x / y" "x / y < 2"
    using assms by (simp_all add: pos_le_divide_eq pos_divide_less_eq)
  then have "\<lfloor>x / y\<rfloor> = 1" by (intro floor_unique) simp_all
  moreover have "\<not> x / y < 0" using q by simp
  ultimately show ?thesis by (simp add: js_rem_def js_trunc_def)
qed

lemma move_beta:
  "beta (fst (move dx dy fric s)) =
     (let b = js_rem (beta s + betaDelta (snd (move dx dy fric s))) (pi * 2)
      in if b > pi / 2 then pi / 2 else if b < - (pi / 2) then - (pi / 2) else b)"
  by (simp add: move_def Let_def)

lemma move_betaDelta:
  "betaDelta (snd (move dx dy fric s)) = (if isPanorama s then 0 else dy) / fric"
  by (simp add: move_def Let_def)

lemma move_event_beta: "event_beta (snd (move dx dy fric s)) = beta (fst (move dx dy fric s))"
  by (simp add: move_def Let_def)

lemma clampPitch_if:
  "clampPitch b = (if b > pi / 2 then pi / 2 else if b < - (pi / 2) then - (pi / 2) else b)"
proof -
  have "0 < pi / 2" by simp
  then show ?thesis unfolding clampPitch_def max_def min_def by (auto; linarith)
qed

lemma move_beta_range:
  "- (pi / 2) \<le> beta (fst (move dx dy fric s))" "beta (fst (move dx dy fric s)) \<le> pi / 2"
  using pi_gt_zero by (simp_all add: move_beta Let_def)

text \<open>
  Claim C3, as amended. With a friction that is not zero, the step is
  \<open>dBeta = deltaY / friction\<close>, with \<open>deltaY\<close> counted as 0 in panorama mode; the event
  reports it as \<open>betaDelta\<close>, and the move sets the pitch accumulator to the clamp of the
  truncating remainder of \<open>beta + dBeta\<close> modulo \<open>2\<pi>\<close>. That is the clamp of
  \<open>beta + dBeta\<close> itself whenever \<open>\<bar>beta + dBeta\<bar> < 2\<pi>\<close>.
\<close>

theorem move_beta_clamped_remainder:
  assumes "fric \<noteq> 0"
  shows "betaDelta (snd (move dx dy fric s)) = (if isPanorama s then 0 else dy) / fric \<and>
         beta (fst (move dx dy fric s))
           = clampPitch (js_rem (beta s + (if isPanorama s then 0 else dy) / fric) (pi * 2)) \<and>
         (\<bar>beta s + (if isPanorama s then 0 else dy) / fric\<bar> < 2 * pi \<longrightarrow>
            beta (fst (move dx dy fric s))
              = clampPitch (beta s + (if isPanorama s then 0 else dy) / fric))"
proof -
  let ?d = "(if isPanorama s then 0 else dy) / fric"
  have d: "betaDelta (snd (move dx dy fric s)) = ?d" by (rule move_betaDelta)
  have a: "beta (fst (move dx dy fric s)) = clampPitch (js_rem (beta s + ?d) (pi * 2))"
    by (simp only: move_beta d clampPitch_if Let_def)
  have "js_rem (beta s + ?d) (pi * 2) = beta s + ?d" if "\<bar>beta s + ?d\<bar> < 2 * pi"
    using that by (intro js_rem_small) (simp add: mult.commute)
  with a d show ?thesis by simp
qed

text \<open>
  The witness: 100 pixels down with friction 400 in a fresh session, which is not in
  panorama mode, give a step and a pitch of 1/4.
\<close>

theorem move_beta_clamped_remainder_witness:
  "(400 :: real) \<noteq> 0 \<and>
   \<not> isPanorama fresh_session \<and>
   \<bar>beta fresh_session + 100 / 400\<bar> < 2 * pi \<and>
   betaDelta (snd (move 0 100 400 fresh_session)) = 1 / 4 \<and>
   beta (fst (move 0 100 400 fresh_session)) = 1 / 4"
proof -
  have small: "\<bar>beta fresh_session + 100 / 400\<bar> < 2 * pi"
    using pi_ge_two by (simp add: fresh_session_fields)
  have c: "clampPitch (1 / 4) = 1 / 4"
    using pi_ge_two by (simp add: clampPitch_if)
  have "(400 :: real) \<noteq> 0" by simp
  from move_beta_clamped_remainder [OF this, where s = fresh_session and dx = 0 and dy = 100]
    small
  have "betaDelta (snd (move 0 100 400 fresh_session)) = 1 / 4 \<and>
        beta (fst (move 0 100 400 fresh_session)) = 1 / 4"
    by (simp add: fresh_session_fields c)
  with small show ?thesis by (simp add: fresh_session_fields)
qed

text \<open>
  Claim C3 as stated (the new accumulator is \<open>clamp(beta + dBeta)\<close> for every magnitude of
  \<open>dBeta\<close>) fails for a large step: in a fresh session \<open>move(0, 2800, 400)\<close> has
  \<open>dBeta = 7\<close>; the remainder is \<open>7 - 2\<pi>\<close>, about 0.717, and stays, while the clamp
  of 7 is \<open>\<pi>/2\<close>.
\<close>

theorem move_beta_large_delta:
  "beta (fst (move 0 2800 400 fresh_session)) = 7 - 2 * pi \<and>
   clampPitch (beta fresh_session + 2800 / 400) = pi / 2 \<and>
   beta (fst (move 0 2800 400 fresh_session)) \<noteq> clampPitch (beta fresh_session + 2800 / 400)"
proof -
  have r: "js_rem 7 (pi * 2) = 7 - pi * 2"
    using pi_bounds by (intro js_rem_once) simp_all
  have a: "beta (fst (move 0 2800 400 fresh_session)) = 7 - 2 * pi"
    using pi_bounds by (simp add: move_beta move_betaDelta fresh_session_fields r Let_def)
  have b: "clampPitch (beta fresh_session + 2800 / 400) = pi / 2"
    using pi_bounds by (simp add: clampPitch_if fresh_session_fields)
  have "7 - 2 * pi \<noteq> pi / 2" using pi_bounds by simp
  with a b show ?thesis by simp
qed

text \<open>
  The pitch accumulator is within \<open>[-\<pi>/2, \<pi>/2]\<close> in every state a controller reaches
  from its construction.
\<close>

lemma start_beta_range:
  assumes "- (pi / 2) \<le> beta s \<and> beta s \<le> pi / 2"
  shows "- (pi / 2) \<le> beta (snd (start x y control event (\<lambda>ev c. (veto, c)) s)) \<and>
         beta (snd (start x y control event (\<lambda>ev c. (veto, c)) s)) \<le> pi / 2"
  using assms by (simp add: start_def Let_def)

lemma exec_beta_range:
  assumes "- (pi / 2) \<le> beta s \<and> beta s \<le> pi / 2"
  shows "- (pi / 2) \<le> beta (exec c s) \<and> beta (exec c s) \<le> pi / 2"
proof (cases c)
  case (CallStart x y control veto)
  then show ?thesis using start_beta_range [OF assms] by simp
next
  case (CallMove dx dy fric)
  then show ?thesis using move_beta_range [of dx dy fric s] by simp
next
  case CallEnd
  then show ?thesis using assms by (simp add: end_controls_def)
next
  case (CallSetPanorama b)
  then show ?thesis using assms by (simp add: setPanorama_def)
qed

lemma fold_exec_beta_range:
  "- (pi / 2) \<le> beta s \<and> beta s \<le> pi / 2 \<Longrightarrow>
   - (pi / 2) \<le> beta (fold exec cs s) \<and> beta (fold exec cs s) \<le> pi / 2"
proof (induction cs arbitrary: s)
  case Nil
  then show ?case by simp
next
  case (Cons c cs)
  from Cons.IH [OF exec_beta_range [OF Cons.prems, of c]] show ?case by simp
qed

lemma run_beta_range:
  "- (pi / 2) \<le> beta (run cs (PositionControls el fric0 shouldInvert isCam isPano)) \<and>
   beta (run cs (PositionControls el fric0 shouldInvert isCam isPano)) \<le> pi / 2"
  unfolding run_def by (rule fold_exec_beta_range) (simp add: PositionControls_def)

text \<open>
  Claim C7 (panorama suppression). In every state a controller reaches from its
  construction by well-formed calls, if panorama mode is on then a move with a friction
  that is not zero has \<open>betaDelta = 0\<close> whatever \<open>deltaY\<close> is, and the pitch accumulator
  keeps its value, as does the pitch the event reports.
\<close>

theorem panorama_move_keeps_beta:
  assumes "list_all well_formed cs"
    and "s = run cs (PositionControls el fric0 shouldInvert isCam isPano)"
    and "isPanorama s" "fric \<noteq> 0"
  shows "betaDelta (snd (move dx dy fric s)) = 0 \<and>
         beta (fst (move dx dy fric s)) = beta s \<and>
         event_beta (snd (move dx dy fric s)) = beta s"
proof -
  have d: "betaDelta (snd (move dx dy fric s)) = 0"
    using assms(3) by (simp add: move_betaDelta)
  have r: "- (pi / 2) \<le> beta s" "beta s \<le> pi / 2"
    using run_beta_range [of cs el fric0 shouldInvert isCam isPano] by (simp_all add: assms(2))
  then have "\<bar>beta s\<bar> < pi * 2" using pi_gt_zero by linarith
  then have "js_rem (beta s) (pi * 2) = beta s" by (rule js_rem_small)
  then have "beta (fst (move dx dy fric s)) = beta s"
    using r by (simp add: move_beta d Let_def)
  with d show ?thesis by (simp add: move_event_beta)
qed

lemma panorama_session_fields:
  "isPanorama panorama_session" "beta panorama_session = 0"
  by (simp_all add: panorama_session_def run_def start_def move_def PositionControls_def
      truthy_def Let_def js_rem_def js_trunc_def)

text \<open>
  The witness: the camera controller of a panorama scene, after a start and a drag, is
  dragged by (5, -40).
\<close>

theorem panorama_move_keeps_beta_witness:
  "list_all well_formed [CallStart 0 0 ''mouse'' False, CallMove 10 25 400] \<and>
   isPanorama panorama_session \<and> (400 :: real) \<noteq> 0 \<and>
   betaDelta (snd (move 5 (- 40) 400 panorama_session)) = 0 \<and>
   beta (fst (move 5 (- 40) 400 panorama_session)) = 0"
proof -
  have w: "list_all well_formed [CallStart 0 0 ''mouse'' False, CallMove 10 25 400]" by simp
  have f: "(400 :: real) \<noteq> 0" by simp
  from panorama_move_keeps_beta [OF w panorama_session_def panorama_session_fields(1) f,
      of 5 "- 40"]
  show ?thesis using w by (simp add: panorama_session_fields)
qed

section \<open>The scene\<close>

lemma sphere_scene_fields:
  "preventDeviceOrientation sphere_scene = False" "scene_isPanorama sphere_scene = False"
  "threeElements sphere_scene = []" "fieldOfView sphere_scene = 75"
  by (simp_all add: sphere_scene_def NDLAThreeSixty_def setCameraPosition_def Let_def)


lemma dragging_scene_fields:
  "preventDeviceOrientation dragging_scene = True"
  "startX (cameraControls dragging_scene) = Some 0"
  "startY (cameraControls dragging_scene) = Some 0"
  "fieldOfView dragging_scene = 75"
  "beta (cameraControls dragging_scene) = 0"
  "isPanorama (cameraControls dragging_scene) = False"
  by (simp_all add: dragging_scene_def camera_start_def start_def NDLAThreeSixty_def
      setCameraPosition_def PositionControls_def PerspectiveCamera_def truthy_def Let_def)

text \<open>
  Claim C8 (suspended camera position). While the suspension flag is set,
  \<open>setCameraPosition\<close> returns the scene as it is, the camera rotation included, and
  triggers no event.
\<close>

theorem setCameraPosition_suspended:
  assumes "preventDeviceOrientation s"
  shows "setCameraPosition yaw pitch s = (s, [])"
  using assms by (simp add: setCameraPosition_def)

text \<open>
  The witness: an accepted start on the camera controller sets the flag, and a position
  set during the drag is ignored.
\<close>

theorem setCameraPosition_suspended_witness:
  "preventDeviceOrientation dragging_scene \<and>
   setCameraPosition 1 (1 / 2) dragging_scene = (dragging_scene, [])"
proof -
  have h: "preventDeviceOrientation dragging_scene" by (simp add: dragging_scene_fields)
  from setCameraPosition_suspended [OF h, of 1 "1 / 2"] h show ?thesis by simp
qed



lemma indexOf_from_absent: "h \<notin> set es \<Longrightarrow> indexOf_from es h i = - 1"
  by (induction es arbitrary: i) auto

lemma splice_last: "splice es (- 1) 1 = butlast es"
  by (cases es rule: rev_cases) (simp_all add: splice_def Let_def)

lemma butlast_differs: "es \<noteq> [] \<Longrightarrow> butlast es \<noteq> es"
  by (cases es rule: rev_cases) simp_all

text \<open>
  Claim C9 (removing a handle that was never placed). \<open>indexOf\<close> returns \<open>-1\<close> and
  \<open>splice(-1, 1)\<close> deletes the last entry: the collection loses its final element when it
  is not empty, and only an empty collection stays as it is.
\<close>

theorem remove_absent_handle:
  assumes "h \<notin> set (threeElements s)"
  shows "indexOf (threeElements s) h = - 1 \<and>
         threeElements (remove h s) = butlast (threeElements s) \<and>
         (threeElements s \<noteq> [] \<longrightarrow> threeElements (remove h s) \<noteq> threeElements s) \<and>
         (threeElements s = [] \<longrightarrow> threeElements (remove h s) = threeElements s)"
proof -
  have i: "indexOf (threeElements s) h = - 1"
    using assms by (simp add: indexOf_def indexOf_from_absent)
  then have r: "threeElements (remove h s) = butlast (threeElements s)"
    by (simp add: remove_def splice_last)
  show ?thesis using i r butlast_differs [of "threeElements s"] by auto
qed

lemma three_placed_elements: "threeElements three_placed = [1, 2, 3]"
  by (simp add: three_placed_def add_def sphere_scene_fields)

text \<open>
  The witness: with handles 1, 2, 3 placed, removing the unknown handle 7 leaves 1, 2; on
  the empty collection nothing changes.
\<close>

theorem remove_absent_handle_witness:
  "7 \<notin> set (threeElements three_placed) \<and>
   threeElements three_placed = [1, 2, 3] \<and>
   threeElements (remove 7 three_placed) = [1, 2] \<and>
   threeElements (remove 7 sphere_scene) = []"
proof -
  have a: "7 \<notin> set (threeElements three_placed)" by (simp add: three_placed_elements)
  have b: "7 \<notin> set (threeElements sphere_scene)" by (simp add: sphere_scene_fields)
  from remove_absent_handle [OF a] remove_absent_handle [OF b] show ?thesis
    by (simp add: three_placed_elements sphere_scene_fields)
qed

text \<open>
  Claim C6 (placement on the display sphere). \<open>setElementPosition\<close> puts the element at
  \<open>(800 sin yaw cos pitch, 800 sin pitch, -800 cos yaw cos pitch)\<close>, with rotation order
  \<open>YXZ\<close> (yaw, then pitch, then roll), \<open>rotation.y = -yaw\<close> and \<open>rotation.x = pitch\<close>.
  Yaw 0 and pitch 0 give \<open>(0, 0, -800)\<close>; yaw \<open>\<pi>/2\<close> and pitch 0 give \<open>(800, 0, 0)\<close>,
  exactly so over the reals.
\<close>

theorem setElementPosition_placement:
  "position_x (setElementPosition e (yaw, pitch)) = 800 * sin yaw * cos pitch \<and>
   position_y (setElementPosition e (yaw, pitch)) = 800 * sin pitch \<and>
   position_z (setElementPosition e (yaw, pitch)) = - 800 * cos yaw * cos pitch \<and>
   rotation_order (setElementPosition e (yaw, pitch)) = ''YXZ'' \<and>
   rotation_y (setElementPosition e (yaw, pitch)) = - yaw \<and>
   rotation_x (setElementPosition e (yaw, pitch)) = pitch \<and>
   position_x (setElementPosition e (0, 0)) = 0 \<and>
   position_y (setElementPosition e (0, 0)) = 0 \<and>
   position_z (setElementPosition e (0, 0)) = - 800 \<and>
   position_x (setElementPosition e (pi / 2, 0)) = 800 \<and>
   position_y (setElementPosition e (pi / 2, 0)) = 0 \<and>
   position_z (setElementPosition e (pi / 2, 0)) = 0"
  by (simp add: setElementPosition_def Let_def)

section \<open>The camera's pitch bound\<close>

lemma camera_move_listener_pitch:
  assumes "startY (cameraControls s) = Some sY" "startX (cameraControls s) = Some sX"
  shows "map_option (\<lambda>s'. cam_rotation_x (camera s')) (camera_move_listener ev s) =
           Some (let p = sX + event_beta ev; r = toRad (fieldOfView s) / 2
                 in if p + r > MAX_PITCH then MAX_PITCH - r
                    else if p - r < - MAX_PITCH then - MAX_PITCH + r else p)"
  using assms by (simp add: camera_move_listener_def Let_def)

text \<open>
  What the listener computes: the requested pitch \<open>startX + beta\<close> clamped to
  \<open>[-(MAX_PITCH - r), MAX_PITCH - r]\<close>, where \<open>r\<close> is half of the field of view the
  scene was constructed with (53 or 75 degrees, at most 180), in radians. The camera's
  own field of view is not read.
\<close>

lemma camera_pitch_clamped_by_setting:
  assumes "startY (cameraControls s) = Some sY" "startX (cameraControls s) = Some sX"
    and "fieldOfView s \<le> 180"
  shows "map_option (\<lambda>s'. cam_rotation_x (camera s')) (camera_move_listener ev s) =
           Some (clamp (sX + event_beta ev)
                   (- (MAX_PITCH - toRad (fieldOfView s) / 2))
                   (MAX_PITCH - toRad (fieldOfView s) / 2)) \<and>
         (fieldOfView s = 75 \<and> sX + event_beta ev = 13 / 10 \<longrightarrow>
            map_option (\<lambda>s'. cam_rotation_x (camera s')) (camera_move_listener ev s) =
              Some (pi / 2 - toRad 75 / 2))"
proof -
  let ?r = "toRad (fieldOfView s) / 2"
  let ?p = "sX + event_beta ev"
  have "fieldOfView s * pi \<le> 180 * pi"
    using assms(3) by (intro mult_right_mono) simp_all
  then have r: "?r \<le> MAX_PITCH" by (simp add: toRad_def MAX_PITCH_def)
  have c: "(if ?p + ?r > MAX_PITCH then MAX_PITCH - ?r
            else if ?p - ?r < - MAX_PITCH then - MAX_PITCH + ?r else ?p)
           = clamp ?p (- (MAX_PITCH - ?r)) (MAX_PITCH - ?r)"
    using r unfolding clamp_def max_def min_def by (auto; linarith)
  have a: "map_option (\<lambda>s'. cam_rotation_x (camera s')) (camera_move_listener ev s) =
             Some (clamp ?p (- (MAX_PITCH - ?r)) (MAX_PITCH - ?r))"
    using camera_move_listener_pitch [OF assms(1,2), of ev] c by (simp add: Let_def)
  have k: "clamp (13 / 10) (- (MAX_PITCH - toRad 75 / 2)) (MAX_PITCH - toRad 75 / 2)
          = pi / 2 - toRad 75 / 2"
    using pi_bounds unfolding clamp_def max_def min_def toRad_def MAX_PITCH_def by simp
  show ?thesis
  proof (intro conjI impI)
    show "map_option (\<lambda>s'. cam_rotation_x (camera s')) (camera_move_listener ev s) =
            Some (clamp ?p (- (MAX_PITCH - ?r)) (MAX_PITCH - ?r))"
      by (rule a)
  next
    assume "fieldOfView s = 75 \<and> sX + event_beta ev = 13 / 10"
    then have "fieldOfView s = 75" "?p = 13 / 10" by simp_all
    with a k show "map_option (\<lambda>s'. cam_rotation_x (camera s')) (camera_move_listener ev s) =
            Some (pi / 2 - toRad 75 / 2)"
      by (simp only:)
  qed
qed

text \<open>
  A sphere scene whose camera starts at pitch 0 is dragged 520 pixels down with friction
  400, a requested pitch of 1.3. The camera ends at \<open>7\<pi>/24\<close>, which is within 0.005
  of 0.915: here the camera's field of view is still the constructed one.
\<close>

lemma camera_pitch_sphere_scene:
  "startY (cameraControls dragging_scene) = Some 0 \<and>
   startX (cameraControls dragging_scene) = Some 0 \<and>
   fieldOfView dragging_scene \<le> 180 \<and>
   map_option (\<lambda>s'. cam_rotation_x (camera s')) (camera_move 0 520 400 dragging_scene)
     = Some (7 * pi / 24) \<and>
   \<bar>7 * pi / 24 - 915 / 1000\<bar> < 5 / 1000"
proof -
  let ?m = "move 0 520 400 (cameraControls dragging_scene)"
  let ?s = "dragging_scene\<lparr> cameraControls := fst ?m \<rparr>"
  have h: "startY (cameraControls ?s) = Some 0" "startX (cameraControls ?s) = Some 0"
    "fieldOfView ?s \<le> 180"
    by (simp_all add: move_def Let_def dragging_scene_fields)
  have "\<bar>13 / 10 :: real\<bar> < pi * 2" using pi_bounds by simp
  then have "js_rem (13 / 10) (pi * 2) = 13 / 10" by (rule js_rem_small)
  then have b: "event_beta (snd ?m) = 13 / 10"
    using pi_bounds by (simp add: move_event_beta move_beta move_betaDelta dragging_scene_fields)
  have f: "fieldOfView ?s = 75" by (simp add: dragging_scene_fields)
  have e: "camera_move 0 520 400 dragging_scene = camera_move_listener (snd ?m) ?s"
    by (simp add: camera_move_def split_beta)
  have v: "pi / 2 - toRad 75 / 2 = 7 * pi / 24" by (simp add: toRad_def)
  have "map_option (\<lambda>s'. cam_rotation_x (camera s')) (camera_move 0 520 400 dragging_scene)
     = Some (7 * pi / 24)"
    using camera_pitch_clamped_by_setting [OF h, of "snd ?m"] b f unfolding e v by simp
  moreover have "\<bar>7 * pi / 24 - 915 / 1000\<bar> < 5 / 1000" using pi_bounds by linarith
  ultimately show ?thesis by (simp add: dragging_scene_fields)
qed

lemma switched_scene_fields:
  "fov (camera switched_scene) = 75"
  "fieldOfView switched_scene = 53"
  "startX (cameraControls switched_scene) = Some 0"
  "startY (cameraControls switched_scene) = Some 0"
  "beta (cameraControls switched_scene) = 0"
  "isPanorama (cameraControls switched_scene) = False"
  "scene_isPanorama switched_scene = False"
  by (simp_all add: switched_scene_def camera_start_def start_def setSourceElement_def
      setPanorama_def NDLAThreeSixty_def setCameraPosition_def PositionControls_def
      PerspectiveCamera_def truthy_def Let_def)

text \<open>
  Claim C5 (the camera's pitch is clamped by half of the camera's vertical field of
  view). The listener's comment says the bound keeps the camera from seeing more than 90
  degrees up or down, but the bound is computed from the field of view the scene was
  constructed with, and \<open>setSourceElement\<close> changes the camera's field of view without
  changing that value. A scene constructed for a panorama (53 degrees) and given a sphere
  source has a camera of 75 degrees; a requested pitch of 1.3 is then clamped to
  \<open>\<pi>/2 - toRad(53)/2\<close>, about 1.108, where the claim gives \<open>\<pi>/2 - toRad(75)/2\<close>,
  about 0.916, and the upper edge of the view passes \<open>MAX_PITCH\<close>.
\<close>

theorem camera_pitch_bound_ignores_camera_fov:
  "fov (camera switched_scene) = 75 \<and>
   fieldOfView switched_scene = 53 \<and>
   map_option (\<lambda>s'. fov (camera s')) (camera_move 0 520 400 switched_scene) = Some 75 \<and>
   map_option (\<lambda>s'. cam_rotation_x (camera s')) (camera_move 0 520 400 switched_scene)
     = Some (pi / 2 - toRad 53 / 2) \<and>
   clamp (13 / 10) (- (MAX_PITCH - toRad 75 / 2)) (MAX_PITCH - toRad 75 / 2)
     = pi / 2 - toRad 75 / 2 \<and>
   pi / 2 - toRad 53 / 2 \<noteq> pi / 2 - toRad 75 / 2 \<and>
   MAX_PITCH < (pi / 2 - toRad 53 / 2) + toRad 75 / 2"
proof -
  let ?m = "move 0 520 400 (cameraControls switched_scene)"
  let ?s = "switched_scene\<lparr> cameraControls := fst ?m \<rparr>"
  have h: "startY (cameraControls ?s) = Some 0" "startX (cameraControls ?s) = Some 0"
    by (simp_all add: move_def Let_def switched_scene_fields)
  have "\<bar>13 / 10 :: real\<bar> < pi * 2" using pi_bounds by simp
  then have "js_rem (13 / 10) (pi * 2) = 13 / 10" by (rule js_rem_small)
  then have b: "event_beta (snd ?m) = 13 / 10"
    using pi_bounds
    by (simp add: move_event_beta move_beta move_betaDelta switched_scene_fields)
  have e: "camera_move 0 520 400 switched_scene = camera_move_listener (snd ?m) ?s"
    by (simp add: camera_move_def split_beta)
  have p: "map_option (\<lambda>s'. cam_rotation_x (camera s')) (camera_move 0 520 400 switched_scene)
     = Some (pi / 2 - toRad 53 / 2)"
    using camera_move_listener_pitch [OF h, of "snd ?m"] pi_bounds unfolding e
    by (simp add: b switched_scene_fields Let_def MAX_PITCH_def toRad_def)
  have f: "map_option (\<lambda>s'. fov (camera s')) (camera_move 0 520 400 switched_scene) = Some 75"
    unfolding e using h
    by (simp add: camera_move_listener_def Let_def switched_scene_fields)
  have k: "clamp (13 / 10) (- (MAX_PITCH - toRad 75 / 2)) (MAX_PITCH - toRad 75 / 2)
          = pi / 2 - toRad 75 / 2"
    using pi_bounds unfolding clamp_def max_def min_def toRad_def MAX_PITCH_def by simp
  have n: "pi / 2 - toRad 53 / 2 \<noteq> pi / 2 - toRad 75 / 2" by (simp add: toRad_def)
  have o: "MAX_PITCH < (pi / 2 - toRad 53 / 2) + toRad 75 / 2"
    by (simp add: toRad_def MAX_PITCH_def)
  from p f k n o show ?thesis by (simp add: switched_scene_fields)
qed

section \<open>Zoom\<close>

lemma getZoomScale_default: "zoomSpeed zc = 1 \<Longrightarrow> getZoomScale zc = 19 / 20"
  by (simp add: getZoomScale_def)

lemma dollyIn_step:
  assumes "perspective_default lo hi zc"
  shows "perspective_default lo hi (dollyIn None zc)"
    and "fov (object (dollyIn None zc)) = max lo (min hi (fov (object zc) * (19 / 20)))"
  using assms by (simp_all add: perspective_default_def dollyIn_def getZoomScale_default Let_def)

lemma dollyOut_step:
  assumes "perspective_default lo hi zc"
  shows "perspective_default lo hi (dollyOut None zc)"
    and "fov (object (dollyOut None zc)) = max lo (min hi (fov (object zc) / (19 / 20)))"
  using assms by (simp_all add: perspective_default_def dollyOut_def getZoomScale_default Let_def)

lemma dollyIn_iter_default:
  "perspective_default lo hi zc \<Longrightarrow> perspective_default lo hi ((dollyIn None ^^ n) zc)"
  by (induction n) (simp_all add: dollyIn_step(1))

lemma dollyOut_iter_default:
  "perspective_default lo hi zc \<Longrightarrow> perspective_default lo hi ((dollyOut None ^^ n) zc)"
  by (induction n) (simp_all add: dollyOut_step(1))

lemma fov_after_dollyIn_Suc:
  assumes "perspective_default lo hi zc"
  shows "fov_after_dollyIn (Suc n) zc = max lo (min hi (fov_after_dollyIn n zc * (19 / 20)))"
  using dollyIn_step(2) [OF dollyIn_iter_default [OF assms, of n]]
  by (simp add: fov_after_dollyIn_def)

lemma fov_after_dollyOut_Suc:
  assumes "perspective_default lo hi zc"
  shows "fov_after_dollyOut (Suc n) zc = max lo (min hi (fov_after_dollyOut n zc / (19 / 20)))"
  using dollyOut_step(2) [OF dollyOut_iter_default [OF assms, of n]]
  by (simp add: fov_after_dollyOut_def)

lemma fov_after_dollyIn_range:
  assumes "perspective_default lo hi zc" "lo \<le> fov (object zc)" "fov (object zc) \<le> hi"
  shows "lo \<le> fov_after_dollyIn n zc \<and> fov_after_dollyIn n zc \<le> hi"
proof (cases n)
  case 0
  with assms show ?thesis by (simp add: fov_after_dollyIn_def)
next
  case (Suc m)
  have "lo \<le> hi" using assms by linarith
  then show ?thesis unfolding Suc fov_after_dollyIn_Suc [OF assms(1)] by simp
qed

lemma fov_after_dollyOut_range:
  assumes "perspective_default lo hi zc" "lo \<le> fov (object zc)" "fov (object zc) \<le> hi"
  shows "lo \<le> fov_after_dollyOut n zc \<and> fov_after_dollyOut n zc \<le> hi"
proof (cases n)
  case 0
  with assms show ?thesis by (simp add: fov_after_dollyOut_def)
next
  case (Suc m)
  have "lo \<le> hi" using assms by linarith
  then show ?thesis unfolding Suc fov_after_dollyOut_Suc [OF assms(1)] by simp
qed

lemma clamp_below:
  fixes t :: real
  assumes "t \<le> max lo m"
  shows "max lo (min hi t) \<le> max lo m"
proof -
  have "min hi t \<le> max lo m" using assms by (simp add: min_le_iff_disj)
  then show ?thesis by simp
qed

lemma fov_after_dollyIn_decay:
  assumes "perspective_default lo hi zc" "0 \<le> lo"
  shows "fov_after_dollyIn n zc \<le> max lo (fov (object zc) * (19 / 20) ^ n)"
proof (induction n)
  case 0
  show ?case by (simp add: fov_after_dollyIn_def)
next
  case (Suc n)
  let ?f = "fov_after_dollyIn n zc"
  let ?x = "fov (object zc) * (19 / 20) ^ n"
  have "?f * (19 / 20) \<le> max lo ?x * (19 / 20)"
    using Suc.IH by (intro mult_right_mono) simp_all
  also have "\<dots> \<le> max lo (?x * (19 / 20))"
    using assms(2) by (simp add: max_def)
  finally have "?f * (19 / 20) \<le> max lo (fov (object zc) * (19 / 20) ^ Suc n)"
    by (simp add: mult.assoc mult.commute)
  then have "max lo (min hi (?f * (19 / 20))) \<le> max lo (fov (object zc) * (19 / 20) ^ Suc n)"
    by (rule clamp_below)
  then show ?case by (simp only: fov_after_dollyIn_Suc [OF assms(1)])
qed

lemma fov_after_dollyIn_reaches_min:
  assumes "perspective_default 20 hi zc" "20 \<le> fov (object zc)" "fov (object zc) \<le> hi"
    and "hi \<le> 75" "26 \<le> n"
  shows "fov_after_dollyIn n zc = 20"
proof -
  have p: "(19 / 20 :: real) ^ n \<le> (19 / 20) ^ 26"
    using assms(5) by (intro power_decreasing) simp_all
  have "fov (object zc) * (19 / 20) ^ n \<le> 75 * (19 / 20) ^ n"
    using assms(3,4) by (intro mult_right_mono) simp_all
  also have "\<dots> \<le> 75 * (19 / 20) ^ 26" using p by simp
  also have "\<dots> \<le> 20" by (simp add: power_divide)
  finally have "max 20 (fov (object zc) * (19 / 20) ^ n) = 20" by simp
  then have "fov_after_dollyIn n zc \<le> 20"
    using fov_after_dollyIn_decay [OF assms(1), of n] by simp
  with fov_after_dollyIn_range [OF assms(1,2,3), of n] show ?thesis by simp
qed

lemma fov_after_dollyIn_tendsto_min:
  assumes "perspective_default 20 hi zc" "20 \<le> fov (object zc)" "fov (object zc) \<le> hi"
    and "hi \<le> 75"
  shows "(\<lambda>n. fov_after_dollyIn n zc) \<longlonglongrightarrow> 20"
proof (rule tendsto_eventually)
  show "eventually (\<lambda>n. fov_after_dollyIn n zc = 20) sequentially"
    unfolding eventually_sequentially
    using fov_after_dollyIn_reaches_min [OF assms] by blast
qed

lemma ZoomControls_default:
  "isPerspectiveCamera cam \<Longrightarrow>
     perspective_default 20 (if isPano then 53 else 75) (ZoomControls cam isPano)"
  by (simp add: perspective_default_def ZoomControls_def FOV_PANORAMA_def FOV_SPHERE_def)

lemma ZoomControls_object: "object (ZoomControls cam isPano) = cam"
  by (simp add: ZoomControls_def)

text \<open>
  Claim C2, as amended. On a perspective camera whose field of view starts within
  \<open>[minFov, maxFov]\<close>, repeated \<open>dollyIn()\<close> with the default scale never exceeds
  \<open>maxFov\<close> (75 in sphere mode, 53 in panorama mode) and converges to \<open>minFov = 20\<close>,
  which it has reached after 26 calls; repeated \<open>dollyOut()\<close> never goes below
  \<open>minFov = 20\<close>.
\<close>

theorem dolly_sequences:
  assumes "isPerspectiveCamera cam" "20 \<le> fov cam" "fov cam \<le> (if isPano then 53 else 75)"
  shows "fov_after_dollyIn n (ZoomControls cam isPano) \<le> (if isPano then 53 else 75) \<and>
         (\<lambda>k. fov_after_dollyIn k (ZoomControls cam isPano)) \<longlonglongrightarrow> 20 \<and>
         (26 \<le> n \<longrightarrow> fov_after_dollyIn n (ZoomControls cam isPano) = 20) \<and>
         20 \<le> fov_after_dollyOut n (ZoomControls cam isPano)"
proof -
  let ?hi = "if isPano then 53 else 75 :: real"
  let ?zc = "ZoomControls cam isPano"
  have d: "perspective_default 20 ?hi ?zc" by (rule ZoomControls_default [OF assms(1)])
  have lo: "20 \<le> fov (object ?zc)" and hi: "fov (object ?zc) \<le> ?hi"
    using assms(2,3) by (simp_all add: ZoomControls_object)
  have le: "?hi \<le> 75" by simp
  show ?thesis
    using fov_after_dollyIn_range [OF d lo hi, of n]
      fov_after_dollyIn_tendsto_min [OF d lo hi le]
      fov_after_dollyIn_reaches_min [OF d lo hi le, of n]
      fov_after_dollyOut_range [OF d lo hi, of n]
    by blast
qed

lemma zoom_fields:
  "isPerspectiveCamera (PerspectiveCamera f r)" "fov (PerspectiveCamera f r) = f"
  by (simp_all add: PerspectiveCamera_def)

text \<open>
  The witness: the sphere-mode controller on a camera at 75 degrees and the panorama-mode
  controller on a camera at 53 degrees, after 30 calls.
\<close>

theorem dolly_sequences_witness:
  "isPerspectiveCamera (PerspectiveCamera 75 (16 / 9)) \<and>
   20 \<le> fov (PerspectiveCamera 75 (16 / 9)) \<and> fov (PerspectiveCamera 75 (16 / 9)) \<le> 75 \<and>
   (26 :: nat) \<le> 30 \<and>
   fov_after_dollyIn 30 sphere_zoom = 20 \<and>
   (\<lambda>k. fov_after_dollyIn k sphere_zoom) \<longlonglongrightarrow> 20 \<and>
   20 \<le> fov_after_dollyOut 30 sphere_zoom \<and>
   isPerspectiveCamera (PerspectiveCamera 53 (16 / 9)) \<and>
   20 \<le> fov (PerspectiveCamera 53 (16 / 9)) \<and> fov (PerspectiveCamera 53 (16 / 9)) \<le> 53 \<and>
   fov_after_dollyIn 30 panorama_zoom = 20 \<and>
   fov_after_dollyOut 30 panorama_zoom \<le> 53 \<and>
   20 \<le> fov_after_dollyOut 30 panorama_zoom"
proof -
  have h: "isPerspectiveCamera (PerspectiveCamera 75 (16 / 9))"
    "20 \<le> fov (PerspectiveCamera 75 (16 / 9))"
    "fov (PerspectiveCamera 75 (16 / 9)) \<le> (if False then 53 else 75)"
    by (simp_all add: zoom_fields)
  have g: "isPerspectiveCamera (PerspectiveCamera 53 (16 / 9))"
    "20 \<le> fov (PerspectiveCamera 53 (16 / 9))"
    "fov (PerspectiveCamera 53 (16 / 9)) \<le> (if True then 53 else 75)"
    by (simp_all add: zoom_fields)
  have d: "perspective_default 20 53 panorama_zoom"
    using ZoomControls_default [OF g(1), of True] by (simp add: panorama_zoom_def)
  have o: "fov_after_dollyOut 30 panorama_zoom \<le> 53"
    using fov_after_dollyOut_range [OF d, of 30]
    by (simp add: panorama_zoom_def ZoomControls_object zoom_fields)
  from dolly_sequences [OF h, of 30] dolly_sequences [OF g, of 30] h g o show ?thesis
    by (simp add: sphere_zoom_def panorama_zoom_def)
qed

text \<open>
  Claim C2 as stated (repeated \<open>dollyIn\<close> converges to \<open>maxFov\<close>) fails: \<open>dollyIn\<close>
  multiplies the field of view by 0.95, so from 75 degrees the first call gives 71.25,
  the 26th gives 20, and the sequence does not converge to 75.
\<close>

theorem dollyIn_leaves_maxFov:
  "fov_after_dollyIn 1 sphere_zoom = 285 / 4 \<and>
   fov_after_dollyIn 26 sphere_zoom = 20 \<and>
   \<not> (\<lambda>k. fov_after_dollyIn k sphere_zoom) \<longlonglongrightarrow> 75"
proof -
  have d: "perspective_default 20 75 sphere_zoom"
    using ZoomControls_default [OF zoom_fields(1), of False 75 "16 / 9"]
    by (simp add: sphere_zoom_def)
  have f: "fov (object sphere_zoom) = 75"
    by (simp add: sphere_zoom_def ZoomControls_object zoom_fields)
  have lo: "20 \<le> fov (object sphere_zoom)" and hi: "fov (object sphere_zoom) \<le> 75"
    by (simp_all add: f)
  have "fov_after_dollyIn 0 sphere_zoom = 75" by (simp add: fov_after_dollyIn_def f)
  then have one: "fov_after_dollyIn 1 sphere_zoom = 285 / 4"
    using fov_after_dollyIn_Suc [OF d, of 0] by simp
  have many: "fov_after_dollyIn 26 sphere_zoom = 20"
    by (rule fov_after_dollyIn_reaches_min [OF d lo hi]) simp_all
  have lim: "(\<lambda>k. fov_after_dollyIn k sphere_zoom) \<longlonglongrightarrow> 20"
    by (rule fov_after_dollyIn_tendsto_min [OF d lo hi]) simp
  have "\<not> (\<lambda>k. fov_after_dollyIn k sphere_zoom) \<longlonglongrightarrow> 75"
  proof
    assume "(\<lambda>k. fov_after_dollyIn k sphere_zoom) \<longlonglongrightarrow> 75"
    from LIMSEQ_unique [OF this lim] show False by simp
  qed
  with one many show ?thesis by simp
qed

end
